theory Spec2Isabelle
  imports Main
begin

section \<open>Go values used by pkg/schema/dirreader.go\<close>

text \<open>
  A \<open>blob.Ref\<close> is opaque to the directory reader: it is only passed on, printed and
  asked whether it is \<open>Valid()\<close>. It is modelled by its printed form; the validity test
  belongs to package \<open>blob\<close> and is a parameter of the model (record \<open>ext\<close> below).
  The bytes of a fetched blob are a string, and so is a \<open>DirectoryEntry\<close>, which the
  reader only collects.
\<close>

type_synonym Ref = string
type_synonym bytes = string
type_synonym DirectoryEntry = string

text \<open>
  A Go slice is either \<open>nil\<close> or holds a sequence; \<open>dr.staticSet != nil\<close> tells the two
  apart, so the model keeps them apart. \<open>append\<close> on \<open>nil\<close> gives a non-nil slice.
\<close>

datatype 'a slice = NilSlice | Slice "'a list"

fun elems :: "'a slice \<Rightarrow> 'a list" where
  "elems NilSlice = []"
| "elems (Slice xs) = xs"

definition len :: "'a slice \<Rightarrow> int" where
  "len s = int (length (elems s))"

definition append_go :: "'a slice \<Rightarrow> 'a \<Rightarrow> 'a slice" where
  "append_go s v = Slice (elems s @ [v])"

text \<open>
  Go's \<open>int\<close> on a 64-bit platform: the result of \<open>+\<close> and \<open>-\<close> wraps around.
\<close>

definition goInt :: "int \<Rightarrow> int" where
  "goInt i = (i + 2 ^ 63) mod 2 ^ 64 - 2 ^ 63"

text \<open>
  The slice expression \<open>s[lo:up]\<close>. Go panics unless \<open>0 \<le> lo \<le> up \<le> cap(s)\<close>; the
  model has no capacity and checks against the length (\<open>Readdir\<close> never asks for more
  than the length, lemma \<open>readdirBounds_up_le\<close>). \<open>None\<close> is the panic.
\<close>

definition slice_go :: "'a slice \<Rightarrow> int \<Rightarrow> int \<Rightarrow> 'a list option" where
  "slice_go s lo up =
     (if 0 \<le> lo \<and> lo \<le> up \<and> up \<le> len s
      then Some (take (nat (up - lo)) (drop (nat lo) (elems s)))
      else None)"

text \<open>
  Errors. Every \<open>fmt.Errorf\<close> and \<open>errors.New\<close> of the file is one constructor, carrying
  the values the format string prints; \<open>Other\<close> is an error made outside the file (by
  the fetcher, the JSON decoder or the entry loader), and \<open>EOF\<close> is \<open>io.EOF\<close>.
  \<open>CantCreateDirEntry\<close> prints a variable that may hold \<open>nil\<close>, hence the option.
\<close>

datatype error =
    EOF
  | Other string
  | BlobrefInvalid
  | FetchingSchemaBlob Ref error
  | DecodingSchemaBlob Ref error
  | ExpectedDirectory Ref string
  | CreatingDirReader Ref error
  | SupersetNotDirectory
  | InvalidBlobref
  | ExpectedStaticSet Ref string
  | InvalidMemberBlobref
  | CantGetStaticSet error
  | CantCreateDirEntry "error option"

text \<open>
  The fields of \<open>superset\<close> that the file reads. A fetcher answers a \<open>Fetch\<close> with an
  error or with the stream's content.
\<close>

record superset =
  BlobRef :: Ref
  Type :: string
  Entries :: Ref
  Members :: "Ref slice"

type_synonym fetcher = "Ref \<Rightarrow> error + bytes"

record DirReader =
  fetcher :: fetcher
  ss :: superset
  staticSet :: "Ref slice"
  current :: int

text \<open>
  Code the file calls and that is not part of it, taken as parameters:
  \<open>blob.Ref.Valid\<close>; \<open>json.NewDecoder(rsc).Decode(ss)\<close>, which fills a superset in place
  and may fail; \<open>parseSuperset\<close>, which returns a new superset or an error; and
  \<open>NewDirectoryEntryFromBlobRef\<close>, which returns an entry and an error.
\<close>

record ext =
  Valid :: "Ref \<Rightarrow> bool"
  jsonDecode :: "bytes \<Rightarrow> superset \<Rightarrow> superset \<times> error option"
  parseSuperset :: "bytes \<Rightarrow> error + superset"
  NewDirectoryEntryFromBlobRef :: "fetcher \<Rightarrow> Ref \<Rightarrow> DirectoryEntry \<times> error option"

text \<open>
  What the file does to the fetcher: the arguments of its \<open>Fetch\<close> calls, in order, and
  the streams it holds open. A stream is named by the number of the \<open>Fetch\<close> call that
  returned it. The fetches that \<open>NewDirectoryEntryFromBlobRef\<close> makes itself are not
  recorded: they happen outside the file.
\<close>

record effects =
  fetched :: "Ref list"
  open_streams :: "nat list"

definition Fetch :: "fetcher \<Rightarrow> Ref \<Rightarrow> effects \<Rightarrow> (error + nat \<times> bytes) \<times> effects" where
  "Fetch f r io =
     (case f r of
        Inl err \<Rightarrow> (Inl err, io\<lparr>fetched := fetched io @ [r]\<rparr>)
      | Inr content \<Rightarrow>
          (Inr (length (fetched io), content),
           io\<lparr>fetched := fetched io @ [r],
              open_streams := open_streams io @ [length (fetched io)]\<rparr>))"

definition Close :: "nat \<Rightarrow> effects \<Rightarrow> effects" where
  "Close rsc io = io\<lparr>open_streams := removeAll rsc (open_streams io)\<rparr>"

section \<open>NewDirReader and setFromBlobRef\<close>

text \<open>
  \<open>setFromBlobRef\<close> (lines 68-82) returns its error and the superset it has written to.
  The deferred \<open>rsc.Close()\<close> runs on both returns that follow the fetch.
\<close>

definition setFromBlobRef ::
  "ext \<Rightarrow> superset \<Rightarrow> fetcher \<Rightarrow> Ref \<Rightarrow> effects \<Rightarrow> error option \<times> superset \<times> effects" where
  "setFromBlobRef x s f blobRef io =
     (if \<not> Valid x blobRef then (Some BlobrefInvalid, s, io)
      else
        let s1 = s\<lparr>BlobRef := blobRef\<rparr> in
        case Fetch f blobRef io of
          (Inl err, io1) \<Rightarrow> (Some (FetchingSchemaBlob blobRef err), s1, io1)
        | (Inr (rsc, content), io1) \<Rightarrow>
            (case jsonDecode x content s1 of
               (s2, Some err) \<Rightarrow> (Some (DecodingSchemaBlob blobRef err), s2, Close rsc io1)
             | (s2, None) \<Rightarrow> (None, s2, Close rsc io1)))"

text \<open>\<open>new(superset)\<close>: every field has its zero value.\<close>

definition new_superset :: superset where
  "new_superset = \<lparr>BlobRef = [], Type = [], Entries = [], Members = NilSlice\<rparr>"

text \<open>
  The method \<open>(ss *superset) NewDirReader\<close> (lines 61-66). \<open>Inl err\<close> is the return
  \<open>nil, err\<close>.
\<close>

definition superset_NewDirReader :: "superset \<Rightarrow> fetcher \<Rightarrow> error + DirReader" where
  "superset_NewDirReader s f =
     (if Type s \<noteq> ''directory'' then Inl SupersetNotDirectory
      else Inr \<lparr>fetcher = f, ss = s, staticSet = NilSlice, current = 0\<rparr>)"

text \<open>The function \<open>NewDirReader\<close> (lines 40-55).\<close>

definition NewDirReader :: "ext \<Rightarrow> fetcher \<Rightarrow> Ref \<Rightarrow> effects \<Rightarrow> (error + DirReader) \<times> effects" where
  "NewDirReader x f dirBlobRef io =
     (case setFromBlobRef x new_superset f dirBlobRef io of
        (Some err, s, io1) \<Rightarrow> (Inl err, io1)
      | (None, s, io1) \<Rightarrow>
          if Type s \<noteq> ''directory'' then (Inl (ExpectedDirectory dirBlobRef (Type s)), io1)
          else
            (case superset_NewDirReader s f of
               Inl err \<Rightarrow> (Inl (CreatingDirReader dirBlobRef err), io1)
             | Inr dr \<Rightarrow> (Inr (dr\<lparr>current := 0\<rparr>), io1)))"

section \<open>StaticSet\<close>

text \<open>
  The loop of lines 104-109: each valid member is appended to \<open>dr.staticSet\<close> itself;
  an invalid member returns at once.
\<close>

fun appendMembers :: "ext \<Rightarrow> Ref list \<Rightarrow> DirReader \<Rightarrow> error option \<times> DirReader" where
  "appendMembers x [] dr = (None, dr)"
| "appendMembers x (member # rest) dr =
     (if \<not> Valid x member then (Some InvalidMemberBlobref, dr)
      else appendMembers x rest (dr\<lparr>staticSet := append_go (staticSet dr) member\<rparr>))"

text \<open>
  \<open>StaticSet\<close> (lines 85-111). The stream \<open>rsc\<close> is handed to \<open>parseSuperset\<close> and not
  mentioned again.
\<close>

definition StaticSet ::
  "ext \<Rightarrow> DirReader \<Rightarrow> effects \<Rightarrow> (error + Ref slice) \<times> DirReader \<times> effects" where
  "StaticSet x dr io =
     (if staticSet dr \<noteq> NilSlice then (Inr (staticSet dr), dr, io)
      else
        let staticSetBlobref = Entries (ss dr) in
        if \<not> Valid x staticSetBlobref then (Inl InvalidBlobref, dr, io)
        else
          case Fetch (fetcher dr) staticSetBlobref io of
            (Inl err, io1) \<Rightarrow> (Inl (FetchingSchemaBlob staticSetBlobref err), dr, io1)
          | (Inr (rsc, content), io1) \<Rightarrow>
              (case parseSuperset x content of
                 Inl err \<Rightarrow> (Inl (DecodingSchemaBlob staticSetBlobref err), dr, io1)
               | Inr s \<Rightarrow>
                   if Type s \<noteq> ''static-set''
                   then (Inl (ExpectedStaticSet staticSetBlobref (Type s)), dr, io1)
                   else
                     (case appendMembers x (elems (Members s)) dr of
                        (Some err, dr1) \<Rightarrow> (Inl err, dr1, io1)
                      | (None, dr1) \<Rightarrow> (Inr (staticSet dr1), dr1, io1))))"

section \<open>Readdir\<close>

text \<open>
  Lines 119-128: the new cursor, the upper bound \<open>up\<close> and the variable \<open>err\<close>, from
  the cursor, \<open>n\<close> and \<open>len(sts)\<close>.
\<close>

definition readdirBounds :: "int \<Rightarrow> int \<Rightarrow> int \<Rightarrow> int \<times> int \<times> error option" where
  "readdirBounds cur n l =
     (let up = goInt (cur + n) in
      if n \<le> 0 then (0, l, None)
      else if n > goInt (l - cur) then (cur, l, Some EOF)
      else (cur, up, None))"

text \<open>
  Lines 144-153. One goroutine per member of the range, each with a channel of its own
  that holds one value. A goroutine shares nothing with the others, so all that a
  schedule decides is the order in which they finish: \<open>finish i\<close> is the time at which
  goroutine \<open>i\<close> sends, and the sends happen in the order of these times. A channel is
  the value it holds, if any.
\<close>

type_synonym res = "DirectoryEntry \<times> error option"

definition runTasks :: "ext \<Rightarrow> fetcher \<Rightarrow> (nat \<Rightarrow> nat) \<Rightarrow> Ref list \<Rightarrow> res option list" where
  "runTasks x f finish refs =
     foldl (\<lambda>cs i. cs[i := Some (NewDirectoryEntryFromBlobRef x f (refs ! i))])
       (replicate (length refs) None)
       (sort_key finish [0..<length refs])"

text \<open>
  Lines 155-162: the channels are read in the order they were made. Reading a channel
  that never gets a value would block for ever (\<open>Blocks\<close>). The error returned on a
  failed load prints \<open>err\<close>, the result variable of \<open>Readdir\<close>, not \<open>res.err\<close>.
\<close>

datatype 'a outcome = Returns 'a | Panics | Blocks

fun collect ::
  "res option list \<Rightarrow> error option \<Rightarrow> DirectoryEntry slice \<Rightarrow> (error + DirectoryEntry slice) outcome" where
  "collect [] err entries = Returns (Inr entries)"
| "collect (None # cs) err entries = Blocks"
| "collect (Some (ent, Some res_err) # cs) err entries = Returns (Inl (CantCreateDirEntry err))"
| "collect (Some (ent, None) # cs) err entries = collect cs err (append_go entries ent)"

text \<open>\<open>Readdir\<close> (lines 114-163).\<close>

definition Readdir ::
  "ext \<Rightarrow> (nat \<Rightarrow> nat) \<Rightarrow> int \<Rightarrow> DirReader \<Rightarrow> effects \<Rightarrow>
     (error + DirectoryEntry slice) outcome \<times> DirReader \<times> effects" where
  "Readdir x finish n dr io =
     (case StaticSet x dr io of
        (Inl err, dr1, io1) \<Rightarrow> (Returns (Inl (CantGetStaticSet err)), dr1, io1)
      | (Inr sts, dr1, io1) \<Rightarrow>
          (case readdirBounds (current dr1) n (len sts) of
             (cur, up, err) \<Rightarrow>
               (let dr2 = dr1\<lparr>current := cur\<rparr> in
                (case slice_go sts (current dr2) up of
                   None \<Rightarrow> (Panics, dr2, io1)
                 | Some refs \<Rightarrow>
                     (collect (runTasks x (fetcher dr2) finish refs) err NilSlice, dr2, io1)))))"

section \<open>A small blob store\<close>

text \<open>
  Concrete collaborators, used to run the definitions. The store holds directory blobs
  \<open>D\<close>, \<open>D0\<close>, \<open>D1\<close>, \<open>D2\<close> and the file blob \<open>F\<close>; their static sets \<open>S\<close> (members
  \<open>A\<close>, \<open>B\<close>, \<open>C\<close>), \<open>S0\<close> (no member), \<open>S1\<close> (member \<open>A\<close>, then the invalid ref
  \<open>bad\<close>) and \<open>S2\<close> (members \<open>A\<close>, \<open>X\<close>, \<open>C\<close>, where \<open>X\<close> is a valid ref of a blob
  that the store does not have); and the blobs \<open>A\<close>, \<open>B\<close>, \<open>C\<close>. A blob's content is
  its own name, and the decoders read a superset off a table.
\<close>

definition ex_fetcher :: fetcher where
  "ex_fetcher r =
     (if r \<in> set [''D'', ''D0'', ''D1'', ''D2'', ''F'', ''S'', ''S0'', ''S1'', ''S2'',
                   ''A'', ''B'', ''C'']
      then Inr r else Inl (Other ''blob not found''))"

definition ex_docs :: "(bytes \<times> superset) list" where
  "ex_docs =
     [(''D'', \<lparr>BlobRef = [], Type = ''directory'', Entries = ''S'', Members = NilSlice\<rparr>),
      (''D0'', \<lparr>BlobRef = [], Type = ''directory'', Entries = ''S0'', Members = NilSlice\<rparr>),
      (''D1'', \<lparr>BlobRef = [], Type = ''directory'', Entries = ''S1'', Members = NilSlice\<rparr>),
      (''D2'', \<lparr>BlobRef = [], Type = ''directory'', Entries = ''S2'', Members = NilSlice\<rparr>),
      (''F'', \<lparr>BlobRef = [], Type = ''file'', Entries = [], Members = NilSlice\<rparr>),
      (''S'', \<lparr>BlobRef = [], Type = ''static-set'', Entries = [],
               Members = Slice [''A'', ''B'', ''C'']\<rparr>),
      (''S0'', \<lparr>BlobRef = [], Type = ''static-set'', Entries = [], Members = Slice []\<rparr>),
      (''S1'', \<lparr>BlobRef = [], Type = ''static-set'', Entries = [],
                Members = Slice [''A'', ''bad'']\<rparr>),
      (''S2'', \<lparr>BlobRef = [], Type = ''static-set'', Entries = [],
                Members = Slice [''A'', ''X'', ''C'']\<rparr>)]"

definition ex_ext :: ext where
  "ex_ext =
     \<lparr>Valid = (\<lambda>r. r \<noteq> [] \<and> r \<noteq> ''bad''),
      jsonDecode = (\<lambda>content s.
        case map_of ex_docs content of
          None \<Rightarrow> (s, Some (Other ''not a schema blob''))
        | Some d \<Rightarrow> (d\<lparr>BlobRef := BlobRef s\<rparr>, None)),
      parseSuperset = (\<lambda>content.
        case map_of ex_docs content of
          None \<Rightarrow> Inl (Other ''not a schema blob'')
        | Some d \<Rightarrow> Inr d),
      NewDirectoryEntryFromBlobRef = (\<lambda>f r.
        case f r of
          Inl err \<Rightarrow> ([], Some err)
        | Inr content \<Rightarrow> (''entry '' @ content, None))\<rparr>"

definition no_effects :: effects where
  "no_effects = \<lparr>fetched = [], open_streams = []\<rparr>"

text \<open>The reader that \<open>NewDirReader\<close> returns for a directory whose static set is \<open>e\<close>.\<close>

definition ex_dr :: "Ref \<Rightarrow> Ref \<Rightarrow> DirReader" where
  "ex_dr d e =
     \<lparr>fetcher = ex_fetcher,
      ss = \<lparr>BlobRef = d, Type = ''directory'', Entries = e, Members = NilSlice\<rparr>,
      staticSet = NilSlice, current = 0\<rparr>"

section \<open>lib/go/camli/auth/auth.go: Basic authentication\<close>

text \<open>
  An \<open>http.Header\<close> maps a key to its values; \<open>Get\<close> returns the first value of the
  key, or the empty string when there is none. Only the header of a request is read.
\<close>

type_synonym Header = "string \<Rightarrow> string list option"

definition Get :: "Header \<Rightarrow> string \<Rightarrow> string" where
  "Get h key = (case h key of None \<Rightarrow> [] | Some [] \<Rightarrow> [] | Some (v # vs) \<Rightarrow> v)"

record Request =
  Header :: Header

text \<open>
  \<open>kBasicAuthPattern\<close> is the regular expression \<^verbatim>\<open>^Basic ([a-zA-Z0-9\+/=]+)\<close>: the
  text starts with \<open>Basic\<close> and a space, and the group is the longest run of characters
  of the class that follows, which must not be empty. \<open>basicAuthMatch\<close> is
  \<open>FindStringSubmatch\<close> on this pattern, reduced to the group: \<open>None\<close> is no match (the
  code tests \<open>len(matches) != 2\<close>), \<open>Some g\<close> is \<open>matches[1]\<close>.
\<close>

definition isBase64Char :: "char \<Rightarrow> bool" where
  "isBase64Char c =
     (c \<in> set (''abcdefghijklmnopqrstuvwxyz'' @ ''ABCDEFGHIJKLMNOPQRSTUVWXYZ'' @
               ''0123456789'' @ ''+/=''))"

definition basicAuthMatch :: "string \<Rightarrow> string option" where
  "basicAuthMatch auth =
     (if take 6 auth = ''Basic '' \<and> takeWhile isBase64Char (drop 6 auth) \<noteq> []
      then Some (takeWhile isBase64Char (drop 6 auth))
      else None)"

text \<open>
  \<open>strings.SplitN(s, ":", 2)\<close>: the text before the first colon and the text after it,
  or the text alone when it has no colon.
\<close>

definition SplitN2 :: "string \<Rightarrow> string list" where
  "SplitN2 s =
     (if CHR '':'' \<in> set s
      then [takeWhile (\<lambda>c. c \<noteq> CHR '':'') s, tl (dropWhile (\<lambda>c. c \<noteq> CHR '':'') s)]
      else [s])"

text \<open>
  The errors of \<open>basicAuth\<close> (lines 77-98); \<open>DecodeError\<close> is the error of the base64
  decoder, which belongs to Go's library and is the parameter \<open>dec\<close>: it returns the
  decoded bytes or fails.
\<close>

datatype auth_error = MissingAuthorization | BogusAuthorization | DecodeError string | NotTwoPieces

definition basicAuth ::
  "(string \<Rightarrow> auth_error + string) \<Rightarrow> Request \<Rightarrow> auth_error + string \<times> string" where
  "basicAuth dec req =
     (let auth = Get (Header req) ''Authorization'' in
      if auth = [] then Inl MissingAuthorization
      else
        (case basicAuthMatch auth of
           None \<Rightarrow> Inl BogusAuthorization
         | Some encoded \<Rightarrow>
             (case dec encoded of
                Inl err \<Rightarrow> Inl err
              | Inr decoded \<Rightarrow>
                  (case SplitN2 decoded of
                     [user, pass] \<Rightarrow> Inr (user, pass)
                   | _ \<Rightarrow> Inl NotTwoPieces))))"

text \<open>
  \<open>DevAuth\<close> and its method \<open>IsAuthorized\<close> (lines 121-132). The line it prints on an
  error is left out.
\<close>

record DevAuth =
  Password :: string

definition DevAuth_IsAuthorized ::
  "(string \<Rightarrow> auth_error + string) \<Rightarrow> DevAuth \<Rightarrow> Request \<Rightarrow> bool" where
  "DevAuth_IsAuthorized dec da req =
     (case basicAuth dec req of
        Inl err \<Rightarrow> False
      | Inr (user, pass) \<Rightarrow> pass = Password da)"

text \<open>
  A decoder for running the definitions: it knows the base64 text of \<open>:secret\<close> and of
  \<open>joe:secret\<close>.
\<close>

definition ex_dec :: "string \<Rightarrow> auth_error + string" where
  "ex_dec e =
     (if e = ''OnNlY3JldA=='' then Inr '':secret''
      else if e = ''am9lOnNlY3JldA=='' then Inr ''joe:secret''
      else Inl (DecodeError ''illegal base64 data''))"

definition ex_req :: "string \<Rightarrow> Request" where
  "ex_req auth = \<lparr>Header = (\<lambda>k. if k = ''Authorization'' then Some [auth] else None)\<rparr>"

section \<open>Lemmas about the directory reader\<close>

lemma elems_foldl_append_go:
  "elems (foldl append_go entries xs) = elems entries @ xs"
  by (induction xs arbitrary: entries) (simp_all add: append_go_def)

lemma fill_length:
  "length (foldl (\<lambda>cs i. cs[i := g i]) cs0 js) = length cs0"
  by (induction js arbitrary: cs0) simp_all

lemma fill_nth:
  "j < length cs0 \<Longrightarrow>
   foldl (\<lambda>cs i. cs[i := g i]) cs0 js ! j = (if j \<in> set js then g j else cs0 ! j)"
proof (induction js arbitrary: cs0)
  case Nil
  then show ?case by simp
next
  case (Cons i js)
  have "j < length (cs0[i := g i])" using Cons.prems by simp
  from Cons.IH [OF this] show ?case using Cons.prems
    by (auto simp: nth_list_update)
qed

lemma runTasks_eq:
  "runTasks x f finish refs = map Some (map (NewDirectoryEntryFromBlobRef x f) refs)"
proof (rule nth_equalityI)
  show "length (runTasks x f finish refs) =
        length (map Some (map (NewDirectoryEntryFromBlobRef x f) refs))"
    by (simp add: runTasks_def fill_length)
next
  fix j assume "j < length (runTasks x f finish refs)"
  then have j: "j < length refs" by (simp add: runTasks_def fill_length)
  then show "runTasks x f finish refs ! j =
        map Some (map (NewDirectoryEntryFromBlobRef x f) refs) ! j"
    unfolding runTasks_def
    by (simp add: fill_nth [where g = "\<lambda>i. Some (NewDirectoryEntryFromBlobRef x f (refs ! i))"])
qed

lemma collect_map_Some:
  "collect (map Some rs) err entries =
     (if list_all (\<lambda>r. snd r = None) rs
      then Returns (Inr (foldl append_go entries (map fst rs)))
      else Returns (Inl (CantCreateDirEntry err)))"
proof (induction rs arbitrary: entries)
  case Nil
  then show ?case by simp
next
  case (Cons r rs)
  obtain ent e where r: "r = (ent, e)" by (cases r)
  show ?case by (cases e) (simp_all add: r Cons.IH)
qed

lemma collect_runTasks:
  "collect (runTasks x f finish refs) err entries =
     (if list_all (\<lambda>r. snd (NewDirectoryEntryFromBlobRef x f r) = None) refs
      then Returns (Inr (foldl append_go entries
             (map (\<lambda>r. fst (NewDirectoryEntryFromBlobRef x f r)) refs)))
      else Returns (Inl (CantCreateDirEntry err)))"
  unfolding runTasks_eq collect_map_Some by (simp add: list.pred_map comp_def)

lemma appendMembers_frame:
  "appendMembers x ms dr = (e, dr1) \<Longrightarrow>
     fetcher dr1 = fetcher dr \<and> current dr1 = current dr \<and> ss dr1 = ss dr"
  by (induction ms arbitrary: dr) (auto split: if_splits)

lemma appendMembers_ok:
  "appendMembers x ms dr = (None, dr1) \<Longrightarrow> ms \<noteq> [] \<Longrightarrow> staticSet dr1 \<noteq> NilSlice"
proof (induction ms arbitrary: dr)
  case Nil then show ?case by simp
next
  case (Cons m ms)
  show ?case
  proof (cases ms)
    case Nil
    with Cons.prems show ?thesis by (auto simp: append_go_def split: if_splits)
  next
    case (Cons m' ms')
    with Cons.prems Cons.IH show ?thesis by (auto split: if_splits)
  qed
qed

lemma StaticSet_frame:
  "StaticSet x dr io = (r, dr1, io1) \<Longrightarrow>
     fetcher dr1 = fetcher dr \<and> current dr1 = current dr \<and> ss dr1 = ss dr"
  by (auto simp: StaticSet_def Let_def split: if_splits prod.splits sum.splits option.splits
      dest: appendMembers_frame)

lemma StaticSet_fresh:
  assumes "staticSet dr = NilSlice" and "StaticSet x dr io = (Inr sts, dr1, io1)"
  shows "\<exists>content s. Valid x (Entries (ss dr)) \<and> fetcher dr (Entries (ss dr)) = Inr content \<and>
           parseSuperset x content = Inr s \<and> Type s = ''static-set'' \<and>
           appendMembers x (elems (Members s)) dr = (None, dr1) \<and> sts = staticSet dr1 \<and>
           fetched io1 = fetched io @ [Entries (ss dr)]"
  using assms
  by (auto simp: StaticSet_def Let_def Fetch_def
      split: if_splits prod.splits sum.splits option.splits)

lemma StaticSet_again:
  assumes "StaticSet x dr io = (Inr sts, dr1, io1)"
  shows "\<exists>io2. StaticSet x dr1 io1 = (Inr sts, dr1, io2)"
proof (cases "staticSet dr = NilSlice")
  case False
  with assms show ?thesis by (auto simp: StaticSet_def)
next
  case True
  from StaticSet_fresh [OF True assms] obtain content s where
    v: "Valid x (Entries (ss dr))" and f: "fetcher dr (Entries (ss dr)) = Inr content" and
    p: "parseSuperset x content = Inr s" and t: "Type s = ''static-set''" and
    a: "appendMembers x (elems (Members s)) dr = (None, dr1)" and sts: "sts = staticSet dr1"
    by blast
  show ?thesis
  proof (cases "elems (Members s)")
    case Nil
    with a have "dr1 = dr" by simp
    with True v f p t a sts show ?thesis
      by (simp add: StaticSet_def Let_def Fetch_def)
  next
    case (Cons m ms)
    with appendMembers_ok [OF a] have "staticSet dr1 \<noteq> NilSlice" by simp
    with sts show ?thesis by (simp add: StaticSet_def)
  qed
qed

lemma StaticSet_cached:
  "staticSet dr \<noteq> NilSlice \<Longrightarrow> StaticSet x dr io = (Inr (staticSet dr), dr, io)"
  by (simp add: StaticSet_def)

lemma Readdir_Inr:
  assumes "StaticSet x dr io = (Inr sts, dr1, io1)"
    and "readdirBounds (current dr) n (len sts) = (cur, up, err)"
  shows "Readdir x finish n dr io =
     (case slice_go sts cur up of
        None \<Rightarrow> Panics
      | Some refs \<Rightarrow>
          if list_all (\<lambda>r. snd (NewDirectoryEntryFromBlobRef x (fetcher dr) r) = None) refs
          then Returns (Inr (foldl append_go NilSlice
                 (map (\<lambda>r. fst (NewDirectoryEntryFromBlobRef x (fetcher dr) r)) refs)))
          else Returns (Inl (CantCreateDirEntry err)),
      dr1\<lparr>current := cur\<rparr>, io1)"
proof -
  from StaticSet_frame [OF assms(1)] have fr: "fetcher dr1 = fetcher dr" "current dr1 = current dr"
    by simp_all
  show ?thesis
  proof (cases "slice_go sts cur up")
    case None
    then show ?thesis by (simp add: Readdir_def assms fr)
  next
    case (Some refs)
    then show ?thesis
      by (simp add: Readdir_def assms fr collect_runTasks)
  qed
qed

lemma readdirBounds_pos: "0 < n \<Longrightarrow> fst (readdirBounds cur n l) = cur"
  by (simp add: readdirBounds_def Let_def)

lemma Readdir_finish_irrelevant:
  "Readdir x finish' n dr io = Readdir x finish n dr io"
  unfolding Readdir_def runTasks_eq by (rule refl)

text \<open>
  With a cursor and a length that a Go \<open>int\<close> can hold, the upper bound of the range
  never exceeds the length, so the slice expression of \<open>Readdir\<close> can only panic on
  its lower bound.
\<close>

lemma goInt_id: "- (2 ^ 63) \<le> i \<Longrightarrow> i < 2 ^ 63 \<Longrightarrow> goInt i = i"
  unfolding goInt_def by (simp add: mod_pos_pos_trivial)

lemma goInt_wrap: "2 ^ 63 \<le> i \<Longrightarrow> i < 2 ^ 64 \<Longrightarrow> goInt i < 0"
proof -
  assume a: "2 ^ 63 \<le> i" "i < 2 ^ 64"
  have "i + 2 ^ 63 = i - 2 ^ 63 + (2 ^ 64 :: int)" by simp
  then have "(i + 2 ^ 63) mod 2 ^ 64 = (i - 2 ^ 63 + 2 ^ 64) mod 2 ^ 64"
    by (rule arg_cong)
  also have "\<dots> = (i - 2 ^ 63) mod 2 ^ 64" by (simp only: mod_add_self2)
  also have "\<dots> = i - 2 ^ 63" using a by (simp add: mod_pos_pos_trivial)
  finally show ?thesis using a unfolding goInt_def by simp
qed

lemma readdirBounds_up_le:
  assumes "- (2 ^ 63) \<le> cur" and "cur < 2 ^ 63" and "0 \<le> l" and "l < 2 ^ 63"
    and "readdirBounds cur n l = (c, up, e)"
  shows "up \<le> l"
proof (cases "n \<le> 0 \<or> n > goInt (l - cur)")
  case True
  with assms(5) show ?thesis by (auto simp: readdirBounds_def Let_def split: if_splits)
next
  case False
  then have n: "0 < n" "n \<le> goInt (l - cur)" by auto
  have "l - cur < 2 ^ 63"
  proof (rule ccontr)
    assume "\<not> l - cur < 2 ^ 63"
    then have "2 ^ 63 \<le> l - cur" by simp
    moreover have "l - cur < 2 ^ 64" using assms(1,4) by simp
    ultimately have "goInt (l - cur) < 0" by (rule goInt_wrap)
    with n show False by simp
  qed
  moreover have "- (2 ^ 63) \<le> l - cur" using assms(2,3) by simp
  ultimately have "goInt (l - cur) = l - cur" by (simp add: goInt_id)
  with n have le: "cur + n \<le> l" by simp
  with n assms(1,4) have "goInt (cur + n) = cur + n" by (simp add: goInt_id)
  with le assms(5) False show ?thesis by (auto simp: readdirBounds_def Let_def split: if_splits)
qed

lemma setFromBlobRef_closes:
  assumes "length (fetched io) \<notin> set (open_streams io)"
  shows "open_streams (snd (snd (setFromBlobRef x s f r io))) = open_streams io"
  using assms
  by (auto simp: setFromBlobRef_def Fetch_def Close_def Let_def
      split: sum.splits prod.splits option.splits)

lemma StaticSet_keeps_stream:
  assumes "staticSet dr = NilSlice" and "Valid x (Entries (ss dr))"
    and "fetcher dr (Entries (ss dr)) = Inr content"
  shows "open_streams (snd (snd (StaticSet x dr io))) = open_streams io @ [length (fetched io)]"
  using assms
  by (auto simp: StaticSet_def Fetch_def Let_def
      split: sum.splits prod.splits option.splits)

lemma Readdir_failed_load:
  assumes "StaticSet x dr io = (Inr sts, dr1, io1)"
    and "readdirBounds (current dr) n (len sts) = (cur, up, err)"
    and "slice_go sts cur up = Some refs"
    and "\<not> list_all (\<lambda>r. snd (NewDirectoryEntryFromBlobRef x (fetcher dr) r) = None) refs"
  shows "fst (Readdir x finish n dr io) = Returns (Inl (CantCreateDirEntry err))"
  by (simp add: Readdir_Inr [OF assms(1,2)] assms(3,4))

lemma readdirBounds_err: "snd (snd (readdirBounds cur n l)) \<in> {None, Some EOF}"
  by (simp add: readdirBounds_def Let_def)

lemma StaticSet_second_call_cached:
  assumes "StaticSet x dr io = (Inr sts, dr1, io1)" and "sts \<noteq> NilSlice"
  shows "StaticSet x dr1 io1 = (Inr sts, dr1, io1)"
proof (cases "staticSet dr = NilSlice")
  case False
  with assms show ?thesis by (auto simp: StaticSet_def)
next
  case True
  from StaticSet_fresh [OF True assms(1)] have "sts = staticSet dr1" by blast
  with assms(2) show ?thesis by (simp add: StaticSet_def)
qed

text \<open>
  \<open>Readdir\<close> returns. No schedule leaves a channel empty, so the collecting loop never
  blocks; and on a reader whose cursor is 0, where \<open>NewDirReader\<close> puts it and where
  \<open>Readdir\<close> leaves it, the slice expression does not panic.
\<close>

lemma Readdir_never_blocks: "fst (Readdir x finish n dr io) \<noteq> Blocks"
proof -
  obtain r dr1 io1 where s: "StaticSet x dr io = (r, dr1, io1)"
    by (cases "StaticSet x dr io") auto
  show ?thesis
  proof (cases r)
    case (Inl e)
    with s show ?thesis by (simp add: Readdir_def)
  next
    case (Inr sts)
    obtain cur up err where b: "readdirBounds (current dr) n (len sts) = (cur, up, err)"
      by (cases "readdirBounds (current dr) n (len sts)") auto
    show ?thesis
      by (simp add: Readdir_Inr [OF s [unfolded Inr] b] split: option.splits)
  qed
qed

lemma Readdir_returns:
  assumes "current dr = 0" and "StaticSet x dr io = (Inr sts, dr1, io1)" and "len sts < 2 ^ 63"
  shows "\<exists>r. fst (Readdir x finish n dr io) = Returns r"
proof -
  obtain cur up err where b: "readdirBounds (current dr) n (len sts) = (cur, up, err)"
    by (cases "readdirBounds (current dr) n (len sts)") auto
  have l0: "0 \<le> len sts" by (simp add: len_def)
  have cur: "cur = 0" using b assms(1) by (auto simp: readdirBounds_def Let_def split: if_splits)
  have le: "up \<le> len sts"
    using readdirBounds_up_le [OF _ _ l0 assms(3) b] assms(1) by simp
  have gl: "goInt (len sts) = len sts" using l0 assms(3) by (simp add: goInt_id)
  have "0 \<le> up"
  proof (cases "n \<le> 0 \<or> n > len sts")
    case True
    with b assms(1) gl l0 show ?thesis
      by (auto simp: readdirBounds_def Let_def split: if_splits)
  next
    case False
    then have "goInt n = n" using assms(3) by (simp add: goInt_id)
    with False b assms(1) gl show ?thesis
      by (auto simp: readdirBounds_def Let_def split: if_splits)
  qed
  with le cur obtain refs where "slice_go sts cur up = Some refs"
    by (simp add: slice_go_def)
  then show ?thesis by (simp add: Readdir_Inr [OF assms(2) b])
qed

section \<open>Lemmas about Basic authentication\<close>

lemma basicAuthMatch_Basic:
  assumes "encoded \<noteq> []" and "list_all isBase64Char encoded"
  shows "basicAuthMatch (''Basic '' @ encoded) = Some encoded"
proof -
  have tw: "takeWhile isBase64Char encoded = encoded"
    using assms(2) by (simp add: takeWhile_eq_all_conv list_all_iff)
  show ?thesis by (simp add: basicAuthMatch_def tw assms(1))
qed

lemma SplitN2_colon:
  assumes "CHR '':'' \<notin> set user"
  shows "SplitN2 (user @ CHR '':'' # pass) = [user, pass]"
proof -
  have t: "takeWhile (\<lambda>c. c \<noteq> CHR '':'') (user @ CHR '':'' # pass) = user"
    using assms by (induction user) auto
  have d: "dropWhile (\<lambda>c. c \<noteq> CHR '':'') (user @ CHR '':'' # pass) = CHR '':'' # pass"
    using assms by (induction user) auto
  have "CHR '':'' \<in> set (user @ CHR '':'' # pass)" by simp
  then show ?thesis by (simp only: SplitN2_def t d if_True list.sel)
qed

section \<open>Running the definitions on the blob store\<close>

lemmas ex_defs = ex_dr_def ex_ext_def ex_fetcher_def ex_docs_def no_effects_def
  StaticSet_def Fetch_def Close_def append_go_def Let_def

lemmas run_defs = Readdir_def collect_runTasks readdirBounds_def goInt_def slice_go_def len_def

text \<open>The readers of the examples are those that \<open>NewDirReader\<close> makes from the store.\<close>

lemma NewDirReader_ex:
  "fst (NewDirReader ex_ext ex_fetcher ''D'' no_effects) = Inr (ex_dr ''D'' ''S'')"
  "fst (NewDirReader ex_ext ex_fetcher ''D0'' no_effects) = Inr (ex_dr ''D0'' ''S0'')"
  "fst (NewDirReader ex_ext ex_fetcher ''D1'' no_effects) = Inr (ex_dr ''D1'' ''S1'')"
  "fst (NewDirReader ex_ext ex_fetcher ''D2'' no_effects) = Inr (ex_dr ''D2'' ''S2'')"
  by (simp_all add: NewDirReader_def setFromBlobRef_def superset_NewDirReader_def
      new_superset_def ex_defs)

section \<open>The properties of the specification, on the code\<close>

text \<open>
  C1. What \<open>StaticSet\<close> does on the reader of directory \<open>D1\<close>, whose static set has the
  valid member \<open>A\<close> followed by an invalid one: the call fails with the error for an
  invalid member, but \<open>A\<close> has already been appended to \<open>dr.staticSet\<close> and stays there.
  The next call finds the field non-nil and returns \<open>[A]\<close> with no error and no fetch.
\<close>

theorem StaticSet_invalid_member_partial_cache:
  "(case StaticSet ex_ext (ex_dr ''D1'' ''S1'') no_effects of
      (r, dr1, io1) \<Rightarrow>
        r = Inl InvalidMemberBlobref \<and> staticSet dr1 = Slice [''A''] \<and>
        fetched io1 = [''S1''] \<and>
        fst (StaticSet ex_ext dr1 io1) = Inr (Slice [''A'']) \<and>
        fetched (snd (snd (StaticSet ex_ext dr1 io1))) = [''S1''])"
  by (simp add: ex_defs)

text \<open>
  C2. What \<open>Readdir(3)\<close> does on the reader of directory \<open>D2\<close>, where the load of the
  second member \<open>X\<close> fails with \<open>blob not found\<close>: no entry is returned, and the error
  returned prints the variable \<open>err\<close> of \<open>Readdir\<close>, which holds \<open>nil\<close>; the error of
  the failed load is not part of it.
\<close>

theorem Readdir_error_omits_cause:
  "NewDirectoryEntryFromBlobRef ex_ext ex_fetcher ''X'' = ([], Some (Other ''blob not found'')) \<and>
   fst (Readdir ex_ext (\<lambda>i. i) 3 (ex_dr ''D2'' ''S2'') no_effects) =
     Returns (Inl (CantCreateDirEntry None))"
  by (simp add: run_defs ex_defs)

text \<open>
  C3. What \<open>Readdir(5)\<close> does on the reader of directory \<open>D\<close>, which has three members
  and the cursor at 0: lines 119-128 clamp the range to the length and set \<open>err\<close> to
  \<open>io.EOF\<close>, and the call returns the three entries with a nil error.
\<close>

theorem Readdir_short_page_no_EOF:
  "readdirBounds 0 5 3 = (0, 3, Some EOF) \<and>
   fst (Readdir ex_ext (\<lambda>i. i) 5 (ex_dr ''D'' ''S'') no_effects) =
     Returns (Inr (Slice [''entry A'', ''entry B'', ''entry C'']))"
  by (simp add: run_defs ex_defs)

text \<open>
  C4. What two calls of \<open>StaticSet\<close> do on the reader of the empty directory \<open>D0\<close>: the
  first call succeeds with no member and leaves \<open>dr.staticSet\<close> nil, so the second call
  fetches the static-set blob \<open>S0\<close> again.
\<close>

theorem StaticSet_empty_fetched_twice:
  "(case StaticSet ex_ext (ex_dr ''D0'' ''S0'') no_effects of
      (r, dr1, io1) \<Rightarrow>
        r = Inr NilSlice \<and> staticSet dr1 = NilSlice \<and> fetched io1 = [''S0''] \<and>
        fst (StaticSet ex_ext dr1 io1) = Inr NilSlice \<and>
        fetched (snd (snd (StaticSet ex_ext dr1 io1))) = [''S0'', ''S0''])"
  by (simp add: ex_defs)

text \<open>
  C5. A call \<open>Readdir(n)\<close> with \<open>n > 0\<close> that returns entries and no error leaves
  the cursor as it was, so that the same call made again right after it, under any
  schedule, returns the same entries and leaves the cursor there once more.
\<close>

theorem Readdir_page_keeps_cursor:
  assumes "0 < n" and "Readdir x finish n dr io = (Returns (Inr entries), dr', io')"
  shows "current dr' = current dr \<and>
         fst (Readdir x finish' n dr' io') = Returns (Inr entries) \<and>
         current (fst (snd (Readdir x finish' n dr' io'))) = current dr"
proof -
  obtain r dr1 io1 where s: "StaticSet x dr io = (r, dr1, io1)"
    by (cases "StaticSet x dr io") auto
  with assms(2) obtain sts where r: "r = Inr sts"
    by (cases r) (auto simp: Readdir_def)
  note s = s [unfolded r]
  obtain cur up err where b: "readdirBounds (current dr) n (len sts) = (cur, up, err)"
    by (cases "readdirBounds (current dr) n (len sts)") auto
  have cur: "cur = current dr" using readdirBounds_pos [OF assms(1), of "current dr" "len sts"] b
    by simp
  from StaticSet_frame [OF s] have fr: "fetcher dr1 = fetcher dr" "current dr1 = current dr"
    by simp_all
  have dr1: "dr1\<lparr>current := cur\<rparr> = dr1" using cur fr by simp
  note first = Readdir_Inr [OF s b, where finish = finish, unfolded dr1]
  with assms(2) have eq: "dr' = dr1" "io' = io1" by simp_all
  from StaticSet_again [OF s] obtain io2 where s2: "StaticSet x dr1 io1 = (Inr sts, dr1, io2)"
    by blast
  have b2: "readdirBounds (current dr1) n (len sts) = (cur, up, err)" using b fr by simp
  note second = Readdir_Inr [OF s2 b2, where finish = finish', unfolded dr1 fr(1)]
  from first second assms(2) show ?thesis
    by (simp add: eq fr)
qed

theorem Readdir_page_keeps_cursor_witness:
  "(0::int) < 2 \<and>
   (case Readdir ex_ext (\<lambda>i. 3 - i) 2 (ex_dr ''D'' ''S'') no_effects of
      (r, dr', io') \<Rightarrow>
        r = Returns (Inr (Slice [''entry A'', ''entry B''])) \<and> current dr' = 0 \<and>
        fst (Readdir ex_ext (\<lambda>i. i) 2 dr' io') = Returns (Inr (Slice [''entry A'', ''entry B''])) \<and>
        current (fst (snd (Readdir ex_ext (\<lambda>i. i) 2 dr' io'))) = 0)"
proof -
  have "fst (Readdir ex_ext (\<lambda>i. 3 - i) 2 (ex_dr ''D'' ''S'') no_effects) =
          Returns (Inr (Slice [''entry A'', ''entry B'']))"
    by (simp add: run_defs ex_defs)
  then obtain dr' io' where
    h: "Readdir ex_ext (\<lambda>i. 3 - i) 2 (ex_dr ''D'' ''S'') no_effects =
          (Returns (Inr (Slice [''entry A'', ''entry B''])), dr', io')"
    by (cases "Readdir ex_ext (\<lambda>i. 3 - i) 2 (ex_dr ''D'' ''S'') no_effects") auto
  have c: "current (ex_dr ''D'' ''S'') = 0" by (simp add: ex_dr_def)
  from Readdir_page_keeps_cursor [OF _ h, of "\<lambda>i. i"] show ?thesis
    by (simp add: h c)
qed

text \<open>
  C6. A call of \<open>Readdir\<close> that returns entries returns one entry per member of the
  range \<open>sts[cur:up]\<close> of the static set, the entry at each position being the one
  loaded from the member at that position, and it returns the same under every other
  order in which the loads finish.
\<close>

theorem Readdir_order:
  assumes "Readdir x finish n dr io = (Returns (Inr entries), dr', io')"
  shows "\<exists>sts dr1 cur up err refs.
           StaticSet x dr io = (Inr sts, dr1, io') \<and>
           readdirBounds (current dr) n (len sts) = (cur, up, err) \<and>
           slice_go sts cur up = Some refs \<and>
           length (elems entries) = length refs \<and>
           elems entries = map (\<lambda>r. fst (NewDirectoryEntryFromBlobRef x (fetcher dr) r)) refs \<and>
           Readdir x finish' n dr io = (Returns (Inr entries), dr', io')"
proof -
  obtain r dr1 io1 where s: "StaticSet x dr io = (r, dr1, io1)"
    by (cases "StaticSet x dr io") auto
  with assms obtain sts where r: "r = Inr sts"
    by (cases r) (auto simp: Readdir_def)
  note s = s [unfolded r]
  obtain cur up err where b: "readdirBounds (current dr) n (len sts) = (cur, up, err)"
    by (cases "readdirBounds (current dr) n (len sts)") auto
  note rd = Readdir_Inr [OF s b, where finish = finish]
  with assms obtain refs where sl: "slice_go sts cur up = Some refs"
    by (cases "slice_go sts cur up") auto
  from rd assms sl have io: "io' = io1"
    and e: "elems entries = map (\<lambda>r. fst (NewDirectoryEntryFromBlobRef x (fetcher dr) r)) refs"
    by (auto simp: elems_foldl_append_go split: if_splits)
  have "Readdir x finish' n dr io = (Returns (Inr entries), dr', io')"
    using assms by (simp add: Readdir_finish_irrelevant [of x finish' n dr io finish])
  with s b sl e io show ?thesis by auto
qed

theorem Readdir_order_witness:
  "fst (Readdir ex_ext (\<lambda>i. 3 - i) 3 (ex_dr ''D'' ''S'') no_effects) =
     Returns (Inr (Slice [''entry A'', ''entry B'', ''entry C''])) \<and>
   fst (Readdir ex_ext (\<lambda>i. i) 3 (ex_dr ''D'' ''S'') no_effects) =
     Returns (Inr (Slice [''entry A'', ''entry B'', ''entry C''])) \<and>
   slice_go (Slice [''A'', ''B'', ''C'']) 0 3 = Some [''A'', ''B'', ''C'']"
proof -
  have "fst (Readdir ex_ext (\<lambda>i. 3 - i) 3 (ex_dr ''D'' ''S'') no_effects) =
          Returns (Inr (Slice [''entry A'', ''entry B'', ''entry C'']))"
    by (simp add: run_defs ex_defs)
  then obtain dr' io' where
    h: "Readdir ex_ext (\<lambda>i. 3 - i) 3 (ex_dr ''D'' ''S'') no_effects =
          (Returns (Inr (Slice [''entry A'', ''entry B'', ''entry C''])), dr', io')"
    by (cases "Readdir ex_ext (\<lambda>i. 3 - i) 3 (ex_dr ''D'' ''S'') no_effects") auto
  from Readdir_order [OF h, of "\<lambda>i. i"]
  have "Readdir ex_ext (\<lambda>i. i) 3 (ex_dr ''D'' ''S'') no_effects =
          (Returns (Inr (Slice [''entry A'', ''entry B'', ''entry C''])), dr', io')"
    by blast
  with h show ?thesis by (simp add: slice_go_def len_def)
qed

text \<open>
  C7. A call \<open>Readdir(n)\<close> with \<open>n \<le> 0\<close> on a reader whose static set resolves sets
  the cursor to 0 and loads the whole static set, whatever the cursor was: when every
  member loads, the entries returned are those of all members, in order; when one does
  not, the call returns the error of a failed load.
\<close>

theorem Readdir_all_resets_cursor:
  assumes "n \<le> 0" and "StaticSet x dr io = (Inr sts, dr1, io1)"
  shows "\<exists>res dr'. Readdir x finish n dr io = (res, dr', io1) \<and>
           current dr' = 0 \<and> staticSet dr' = staticSet dr1 \<and>
           (if list_all (\<lambda>r. snd (NewDirectoryEntryFromBlobRef x (fetcher dr) r) = None) (elems sts)
            then \<exists>entries. res = Returns (Inr entries) \<and>
                   elems entries =
                     map (\<lambda>r. fst (NewDirectoryEntryFromBlobRef x (fetcher dr) r)) (elems sts)
            else res = Returns (Inl (CantCreateDirEntry None)))"
proof -
  have b: "readdirBounds (current dr) n (len sts) = (0, len sts, None)"
    using assms(1) by (simp add: readdirBounds_def)
  have s: "slice_go sts 0 (len sts) = Some (elems sts)"
    by (simp add: slice_go_def len_def)
  show ?thesis
    by (simp add: Readdir_Inr [OF assms(2) b] s elems_foldl_append_go)
qed

theorem Readdir_all_resets_cursor_witness:
  "(0::int) \<le> 0 \<and>
   fst (StaticSet ex_ext ((ex_dr ''D'' ''S'')\<lparr>current := 2\<rparr>) no_effects) = Inr (Slice [''A'', ''B'', ''C'']) \<and>
   current (fst (snd (Readdir ex_ext (\<lambda>i. 3 - i) 0 ((ex_dr ''D'' ''S'')\<lparr>current := 2\<rparr>) no_effects))) = 0 \<and>
   fst (Readdir ex_ext (\<lambda>i. 3 - i) 0 ((ex_dr ''D'' ''S'')\<lparr>current := 2\<rparr>) no_effects) =
     Returns (Inr (Slice [''entry A'', ''entry B'', ''entry C'']))"
proof -
  let ?dr = "(ex_dr ''D'' ''S'')\<lparr>current := 2\<rparr>"
  have f: "fst (StaticSet ex_ext ?dr no_effects) = Inr (Slice [''A'', ''B'', ''C''])"
    by (simp add: ex_defs)
  then obtain dr1 io1 where
    s: "StaticSet ex_ext ?dr no_effects = (Inr (Slice [''A'', ''B'', ''C'']), dr1, io1)"
    by (cases "StaticSet ex_ext ?dr no_effects") auto
  have ok: "list_all (\<lambda>r. snd (NewDirectoryEntryFromBlobRef ex_ext (fetcher ?dr) r) = None)
       (elems (Slice [''A'', ''B'', ''C'']))"
    by (simp add: ex_defs)
  from Readdir_all_resets_cursor [OF _ s, of 0 "\<lambda>i. 3 - i"] ok
  obtain entries dr' where
    r: "Readdir ex_ext (\<lambda>i. 3 - i) 0 ?dr no_effects = (Returns (Inr entries), dr', io1)"
    and c: "current dr' = 0"
    and e: "elems entries =
      map (\<lambda>r. fst (NewDirectoryEntryFromBlobRef ex_ext (fetcher ?dr) r)) (elems (Slice [''A'', ''B'', ''C'']))"
    by auto
  have ne: "entries \<noteq> NilSlice" using e by (cases entries) simp_all
  from e ne have "entries = Slice [''entry A'', ''entry B'', ''entry C'']"
    by (cases entries) (simp_all add: ex_defs)
  with f r c show ?thesis by simp
qed

text \<open>
  C8. When the blob of \<open>dirRef\<close> decodes to a schema document whose type is not
  \<open>directory\<close>, \<open>NewDirReader\<close> fails with the error that names the type it found. On
  every input, \<open>NewDirReader\<close> makes at most one fetch, that of \<open>dirRef\<close>, and a reader it
  returns has no static set yet.
\<close>

theorem NewDirReader_not_directory:
  "(Valid x dirRef \<and> f dirRef = Inr content \<and>
    jsonDecode x content (new_superset\<lparr>BlobRef := dirRef\<rparr>) = (s, None) \<and>
    Type s \<noteq> ''directory'' \<longrightarrow>
      fst (NewDirReader x f dirRef io) = Inl (ExpectedDirectory dirRef (Type s)) \<and>
      fetched (snd (NewDirReader x f dirRef io)) = fetched io @ [dirRef]) \<and>
   (fetched (snd (NewDirReader x f dirRef io)) = fetched io \<or>
    fetched (snd (NewDirReader x f dirRef io)) = fetched io @ [dirRef]) \<and>
   (\<forall>dr. fst (NewDirReader x f dirRef io) = Inr dr \<longrightarrow> staticSet dr = NilSlice)"
  by (auto simp: NewDirReader_def setFromBlobRef_def Fetch_def Close_def Let_def
      superset_NewDirReader_def
      split: if_splits prod.splits sum.splits option.splits)

theorem NewDirReader_not_directory_witness:
  "Valid ex_ext ''F'' \<and> ex_fetcher ''F'' = Inr ''F'' \<and>
   snd (jsonDecode ex_ext ''F'' (new_superset\<lparr>BlobRef := ''F''\<rparr>)) = None \<and>
   Type (fst (jsonDecode ex_ext ''F'' (new_superset\<lparr>BlobRef := ''F''\<rparr>))) = ''file'' \<and>
   fst (NewDirReader ex_ext ex_fetcher ''F'' no_effects) = Inl (ExpectedDirectory ''F'' ''file'') \<and>
   fetched (snd (NewDirReader ex_ext ex_fetcher ''F'' no_effects)) = [''F'']"
proof -
  let ?s = "fst (jsonDecode ex_ext ''F'' (new_superset\<lparr>BlobRef := ''F''\<rparr>))"
  have v: "Valid ex_ext ''F''" and f: "ex_fetcher ''F'' = Inr ''F''"
    by (simp_all add: ex_defs)
  have n: "snd (jsonDecode ex_ext ''F'' (new_superset\<lparr>BlobRef := ''F''\<rparr>)) = None"
    by (simp add: ex_defs)
  then have d: "jsonDecode ex_ext ''F'' (new_superset\<lparr>BlobRef := ''F''\<rparr>) = (?s, None)"
    by (simp add: prod_eq_iff)
  have t: "Type ?s = ''file''" by (simp add: ex_defs)
  from NewDirReader_not_directory [of ex_ext "''F''" ex_fetcher "''F''" ?s no_effects] v f d t n
  show ?thesis by (simp add: no_effects_def)
qed

text \<open>
  C9. The streams left open on the store: \<open>setFromBlobRef\<close> on \<open>D\<close> leaves none, while
  \<open>StaticSet\<close> leaves the stream of its fetch open, both when it succeeds (static set
  \<open>S\<close>) and when it fails on the type of the blob (the file blob \<open>F\<close> in the place of
  a static set).
\<close>

theorem StaticSet_leaves_stream_open:
  "open_streams (snd (snd (setFromBlobRef ex_ext new_superset ex_fetcher ''D'' no_effects))) = [] \<and>
   fst (StaticSet ex_ext (ex_dr ''D'' ''S'') no_effects) = Inr (Slice [''A'', ''B'', ''C'']) \<and>
   open_streams (snd (snd (StaticSet ex_ext (ex_dr ''D'' ''S'') no_effects))) = [0] \<and>
   fst (StaticSet ex_ext (ex_dr ''D'' ''F'') no_effects) = Inl (ExpectedStaticSet ''F'' ''file'') \<and>
   open_streams (snd (snd (StaticSet ex_ext (ex_dr ''D'' ''F'') no_effects))) = [0]"
  by (simp add: ex_defs setFromBlobRef_def)

text \<open>
  C10. For a request whose \<open>Authorization\<close> header is \<open>Basic\<close>, a space and a non-empty
  base64 text that decodes to \<open>user:pass\<close>, where \<open>user\<close> has no colon,
  \<open>DevAuth.IsAuthorized\<close> is true exactly when \<open>pass\<close> is the configured password; the
  user name, which may be empty, plays no part.
\<close>

theorem DevAuth_IsAuthorized_password_only:
  assumes "Get (Header req) ''Authorization'' = ''Basic '' @ encoded"
    and "encoded \<noteq> []" and "list_all isBase64Char encoded"
    and "dec encoded = Inr (user @ CHR '':'' # pass)"
    and "CHR '':'' \<notin> set user"
  shows "DevAuth_IsAuthorized dec da req = (pass = Password da)"
proof -
  have m: "basicAuthMatch (Get (Header req) ''Authorization'') = Some encoded"
    unfolding assms(1) by (rule basicAuthMatch_Basic [OF assms(2,3)])
  have ne: "Get (Header req) ''Authorization'' \<noteq> []"
    unfolding assms(1) by simp
  have "basicAuth dec req = Inr (user, pass)"
    by (simp add: basicAuth_def Let_def m ne assms(4) SplitN2_colon [OF assms(5)])
  then show ?thesis by (simp add: DevAuth_IsAuthorized_def)
qed

theorem DevAuth_IsAuthorized_password_only_witness:
  "Get (Header (ex_req ''Basic OnNlY3JldA=='')) ''Authorization'' = ''Basic '' @ ''OnNlY3JldA=='' \<and>
   list_all isBase64Char ''OnNlY3JldA=='' \<and>
   ex_dec ''OnNlY3JldA=='' = Inr ([] @ CHR '':'' # ''secret'') \<and>
   DevAuth_IsAuthorized ex_dec \<lparr>Password = ''secret''\<rparr> (ex_req ''Basic OnNlY3JldA=='') \<and>
   \<not> DevAuth_IsAuthorized ex_dec \<lparr>Password = ''other''\<rparr> (ex_req ''Basic OnNlY3JldA=='')"
proof -
  have g: "Get (Header (ex_req ''Basic OnNlY3JldA=='')) ''Authorization'' = ''Basic '' @ ''OnNlY3JldA==''"
    by (simp add: Get_def ex_req_def)
  have b: "list_all isBase64Char ''OnNlY3JldA==''"
    by (simp add: isBase64Char_def)
  have d: "ex_dec ''OnNlY3JldA=='' = Inr ([] @ CHR '':'' # ''secret'')"
    by (simp add: ex_dec_def)
  have n: "''OnNlY3JldA=='' \<noteq> []" and u: "CHR '':'' \<notin> set []" by simp_all
  note t = DevAuth_IsAuthorized_password_only
    [where req = "ex_req ''Basic OnNlY3JldA==''" and encoded = "''OnNlY3JldA==''"
       and dec = ex_dec and user = "[]" and pass = "''secret''", OF g n b d u]
  have "DevAuth_IsAuthorized ex_dec \<lparr>Password = ''secret''\<rparr> (ex_req ''Basic OnNlY3JldA=='')"
    and "\<not> DevAuth_IsAuthorized ex_dec \<lparr>Password = ''other''\<rparr> (ex_req ''Basic OnNlY3JldA=='')"
    by (simp_all add: t)
  with g b d show ?thesis by blast
qed

end
